theory Spec2Isabelle
  imports Complex_Main "HOL-Library.Char_ord" "HOL-Library.List_Lexorder"
begin

section \<open>Python values and exceptions\<close>

text \<open>
  The exceptions that the modelled code raises itself (\<open>RuntimeError\<close> in
  \<open>PageFetcher.wait\<close>), that Python raises on its behalf (\<open>IndexError\<close> on a list index
  out of range or a \<open>pop\<close> from an empty list, \<open>UnicodeDecodeError\<close> in
  \<open>unicode(...)\<close>), and the failures that the paged result source hands to the error
  callback (\<open>SourceError\<close>).
\<close>

datatype exn =
    RuntimeError string
  | IndexError
  | UnicodeDecodeError
  | SourceError string

text \<open>
  The element that \<open>xs[i]\<close> reads in Python. A position from \<open>0\<close> to \<open>len(xs) - 1\<close> is
  read from the front; a position from \<open>-len(xs)\<close> to \<open>-1\<close> is read from the back, \<open>-1\<close>
  being the last element; every other position raises \<open>IndexError\<close>.
\<close>

definition py_index :: "'a list \<Rightarrow> int \<Rightarrow> exn + 'a" where
  "py_index xs i =
     (if 0 \<le> i \<and> i < int (length xs) then Inr (xs ! nat i)
      else if i < 0 \<and> - int (length xs) \<le> i then Inr (xs ! nat (int (length xs) + i))
      else Inl IndexError)"

section \<open>paging\_test.py: Page and PageFetcher\<close>

subsection \<open>Page\<close>

text \<open>
  \<^verbatim>\<open>
  class Page(object):
      data = None
      def __init__(self):
          self.data = []
      def add_row(self, row):
          self.data.append(row)
  \<close>
\<close>

record 'r Page =
  data :: "'r list"

definition Page_init :: "'r Page" where
  "Page_init = \<lparr>data = []\<rparr>"

definition add_row :: "'r \<Rightarrow> 'r Page \<Rightarrow> 'r Page" where
  "add_row row p = p\<lparr>data := data p @ [row]\<rparr>"

subsection \<open>The paged result source\<close>

text \<open>
  The object that \<open>PageFetcher\<close> wraps (\<open>self.future\<close>) belongs to the database driver. The
  code uses three members of it: the property \<open>has_more_pages\<close>, the method
  \<open>start_fetching_next_page()\<close> and the method \<open>add_callbacks(callback, errback)\<close>. The record
  keeps what these members read and write: whether more pages exist, whether the two
  callbacks have been registered, and how many fetches have been started whose callback
  the source has not invoked yet.
\<close>

record future =
  has_more_pages :: bool
  callbacks_registered :: bool
  in_flight :: nat

definition add_callbacks :: "future \<Rightarrow> future" where
  "add_callbacks fut = fut\<lparr>callbacks_registered := True\<rparr>"

definition start_fetching_next_page :: "future \<Rightarrow> future" where
  "start_fetching_next_page fut = fut\<lparr>in_flight := Suc (in_flight fut)\<rparr>"

subsection \<open>PageFetcher: state and callbacks\<close>

record 'r PageFetcher =
  pages :: "'r Page list"
  error :: "exn option"
  future :: future
  requested_pages :: int
  retrieved_pages :: int

text \<open>
  \<^verbatim>\<open>
  def handle_page(self, rows):
      self.retrieved_pages += 1
      page = Page()
      self.pages.append(page)
      for row in rows:
          page.add_row(row)
  \<close>
  The page object is appended first and filled afterwards; the model gives the state
  when the callback has run to its end.
\<close>

definition handle_page :: "'r list \<Rightarrow> 'r PageFetcher \<Rightarrow> 'r PageFetcher" where
  "handle_page rows f =
     f\<lparr>retrieved_pages := retrieved_pages f + 1,
       pages := pages f @ [fold add_row rows Page_init]\<rparr>"

text \<open>
  \<^verbatim>\<open>
  def handle_error(self, exc):
      self.error = exc
      raise exc
  \<close>
  The callback stores the failure and raises it: the result is the new state together
  with the exception that leaves the callback.
\<close>

definition handle_error :: "exn \<Rightarrow> 'r PageFetcher \<Rightarrow> 'r PageFetcher \<times> exn" where
  "handle_error exc f = (f\<lparr>error := Some exc\<rparr>, exc)"

subsection \<open>PageFetcher: accessors\<close>

definition retrieved_pagecount :: "'r PageFetcher \<Rightarrow> nat" where
  "retrieved_pagecount f = length (pages f)"

text \<open>\<^verbatim>\<open>return len(self.pages[page_num - 1].data)\<close>\<close>

definition num_results :: "'r PageFetcher \<Rightarrow> int \<Rightarrow> exn + nat" where
  "num_results f page_num =
     (case py_index (pages f) (page_num - 1) of
        Inl e \<Rightarrow> Inl e
      | Inr page \<Rightarrow> Inr (length (data page)))"

text \<open>\<^verbatim>\<open>return [len(page.data) for page in self.pages]\<close>\<close>

definition num_results_all_pages :: "'r PageFetcher \<Rightarrow> nat list" where
  "num_results_all_pages f = map (\<lambda>page. length (data page)) (pages f)"

text \<open>\<^verbatim>\<open>return self.pages[page_num - 1].data\<close>\<close>

definition retrieved_page_data :: "'r PageFetcher \<Rightarrow> int \<Rightarrow> exn + 'r list" where
  "retrieved_page_data f page_num =
     (case py_index (pages f) (page_num - 1) of
        Inl e \<Rightarrow> Inl e
      | Inr page \<Rightarrow> Inr (data page))"

text \<open>
  \<^verbatim>\<open>
  all_pages_combined = []
  for page in self.pages:
      all_pages_combined.extend(page.data[:])
  return all_pages_combined
  \<close>
\<close>

definition all_retrieved_data :: "'r PageFetcher \<Rightarrow> 'r list" where
  "all_retrieved_data f = fold (\<lambda>page all_pages_combined. all_pages_combined @ data page) (pages f) []"

subsection \<open>The environment: clock readings and callbacks\<close>

text \<open>
  \<open>PageFetcher.wait\<close> reads the wall clock (\<open>time.time()\<close>) and the two counters, which
  the callbacks change from the source's own execution context. Both are inputs of the
  environment, given to the model as a script: the list of the clock readings that the
  following calls of \<open>time.time()\<close> return, interleaved with the callbacks that the
  source invokes in between. A page arrival carries the rows and the value that
  \<open>has_more_pages\<close> has afterwards. Time is a rational number of seconds; the rounding of
  floating point numbers is left out.

  A callback runs as a whole, and the functions below let it run at the clock reading
  that follows it in the script. Between two clock readings the caller reads no field
  that a callback writes, except \<open>has_more_pages\<close> at the head of \<open>request_page\<close> and of the
  loop of \<open>request_all_pages\<close>, which is read as the last poll has left it. What
  callbacks do between the caller's statements is the subject of \<open>exec\<close> and \<open>run\<close>
  further down. A callback that the source invokes before \<open>__init__\<close> has set the counters
  finds them \<open>None\<close> and fails; the script of a construction starts when both are set.
\<close>

datatype 'r event =
    is_Now: Now rat
  | is_Page_arrives: Page_arrives "'r list" bool
  | is_Error_arrives: Error_arrives exn

text \<open>
  What the source does to the fetcher when an event happens: it invokes the registered
  callback, \<open>handle_page\<close> or \<open>handle_error\<close>, and the fetch that the callback answers is no
  longer in flight. The exception that \<open>handle_error\<close> raises leaves in the source's
  context, not in the caller's. A clock reading changes nothing.
\<close>

fun deliver :: "'r event \<Rightarrow> 'r PageFetcher \<Rightarrow> 'r PageFetcher" where
  "deliver (Now t) f = f"
| "deliver (Page_arrives rows has_more) f =
     (if callbacks_registered (future f)
      then (handle_page rows f)\<lparr>future := (future f)\<lparr>has_more_pages := has_more, in_flight := in_flight (future f) - 1\<rparr>\<rparr>
      else f\<lparr>future := (future f)\<lparr>has_more_pages := has_more, in_flight := in_flight (future f) - 1\<rparr>\<rparr>)"
| "deliver (Error_arrives exc) f =
     (if callbacks_registered (future f)
      then (fst (handle_error exc f))\<lparr>future := (future f)\<lparr>in_flight := in_flight (future f) - 1\<rparr>\<rparr>
      else f\<lparr>future := (future f)\<lparr>in_flight := in_flight (future f) - 1\<rparr>\<rparr>)"

text \<open>
  The outcome of a call that consumes the script: it returns a value, it raises, or the
  script ends while the call is still polling (the script says too little about the
  environment to tell how the call ends).
\<close>

datatype 'a outcome =
    Returns 'a
  | Raises exn
  | Script_exhausted

subsection \<open>PageFetcher: wait\<close>

text \<open>
  \<^verbatim>\<open>
  def wait(self, seconds=5):
      expiry = time.time() + seconds
      while time.time() < expiry:
          if self.requested_pages == self.retrieved_pages:
              return self
      raise RuntimeError("Requested pages were not delivered before timeout.")
  \<close>
  \<open>poll\<close> is the loop: each clock reading of the script is one evaluation of the loop
  condition, and the callbacks before it have run when the counters are compared.
  A call returns the fetcher and the rest of the script.
\<close>

fun poll :: "'r PageFetcher \<Rightarrow> rat \<Rightarrow> 'r event list \<Rightarrow> ('r PageFetcher \<times> 'r event list) outcome" where
  "poll f expiry [] = Script_exhausted"
| "poll f expiry (Now t # evs) =
     (if t < expiry
      then (if requested_pages f = retrieved_pages f then Returns (f, evs) else poll f expiry evs)
      else Raises (RuntimeError ''Requested pages were not delivered before timeout.''))"
| "poll f expiry (ev # evs) = poll (deliver ev f) expiry evs"

fun wait :: "'r PageFetcher \<Rightarrow> rat \<Rightarrow> 'r event list \<Rightarrow> ('r PageFetcher \<times> 'r event list) outcome" where
  "wait f seconds [] = Script_exhausted"
| "wait f seconds (Now t # evs) = poll f (t + seconds) evs"
| "wait f seconds (ev # evs) = wait (deliver ev f) seconds evs"

subsection \<open>PageFetcher: construction and requests\<close>

text \<open>
  \<^verbatim>\<open>
  def __init__(self, future):
      self.pages = []
      self.future = future
      self.future.add_callbacks(callback=self.handle_page, errback=self.handle_error)
      self.requested_pages = 1
      self.retrieved_pages = 0
      self.wait(seconds=30)
  \<close>
  The class attribute \<open>error = None\<close> is the initial value of \<open>self.error\<close>.
\<close>

definition PageFetcher_fields :: "future \<Rightarrow> 'r PageFetcher" where
  "PageFetcher_fields fut =
     \<lparr>pages = [], error = None, future = add_callbacks fut,
      requested_pages = 1, retrieved_pages = 0\<rparr>"


text \<open>
  \<^verbatim>\<open>
  def request_page(self):
      if self.future.has_more_pages:
          self.future.start_fetching_next_page()
          self.requested_pages += 1
          self.wait()
      return self
  \<close>
  The two statements before \<open>self.wait()\<close> are \<open>fetch_next\<close> and \<open>count_request\<close>.
\<close>

definition fetch_next :: "'r PageFetcher \<Rightarrow> 'r PageFetcher" where
  "fetch_next f = f\<lparr>future := start_fetching_next_page (future f)\<rparr>"

definition count_request :: "'r PageFetcher \<Rightarrow> 'r PageFetcher" where
  "count_request f = f\<lparr>requested_pages := requested_pages f + 1\<rparr>"

definition request_page :: "'r PageFetcher \<Rightarrow> 'r event list \<Rightarrow> ('r PageFetcher \<times> 'r event list) outcome" where
  "request_page f evs =
     (if has_more_pages (future f)
      then (case wait (count_request (fetch_next f)) 5 evs of
              Returns (f', evs') \<Rightarrow> Returns (f', evs')
            | Raises e \<Rightarrow> Raises e
            | Script_exhausted \<Rightarrow> Script_exhausted)
      else Returns (f, evs))"

text \<open>
  A call of \<open>wait\<close> that returns has read the clock twice at least, so it hands back a
  shorter script; the loop of \<open>request_all_pages\<close> terminates on every script for that
  reason.
\<close>

lemma poll_shorter: "poll f expiry evs = Returns (f', evs') \<Longrightarrow> length evs' < length evs"
  by (induction f expiry evs rule: poll.induct) (auto split: if_splits)

lemma wait_shorter: "wait f seconds evs = Returns (f', evs') \<Longrightarrow> length evs' < length evs"
  by (induction f seconds evs rule: wait.induct) (auto dest: poll_shorter)

text \<open>
  \<^verbatim>\<open>
  def request_all_pages(self):
      while self.future.has_more_pages:
          self.future.start_fetching_next_page()
          self.requested_pages += 1
          self.wait()
      return self
  \<close>
\<close>

function request_all_pages :: "'r PageFetcher \<Rightarrow> 'r event list \<Rightarrow> ('r PageFetcher \<times> 'r event list) outcome" where
  "request_all_pages f evs =
     (if has_more_pages (future f)
      then (case wait (count_request (fetch_next f)) 5 evs of
              Returns (f', evs') \<Rightarrow> request_all_pages f' evs'
            | Raises e \<Rightarrow> Raises e
            | Script_exhausted \<Rightarrow> Script_exhausted)
      else Returns (f, evs))"
  by pat_completeness auto
termination
  by (relation "measure (\<lambda>(f, evs). length evs)") (auto dest: wait_shorter)

text \<open>
  Calls chained on the fetcher, as in \<open>pf.request_page().request_all_pages()\<close>: each call
  runs on the fetcher that the one before returned, and an exception ends the chain.
\<close>

datatype call = Request_page | Request_all_pages

fun chain :: "call list \<Rightarrow> 'r PageFetcher \<Rightarrow> 'r event list \<Rightarrow> ('r PageFetcher \<times> 'r event list) outcome" where
  "chain [] f evs = Returns (f, evs)"
| "chain (c # cs) f evs =
     (case (case c of Request_page \<Rightarrow> request_page f evs
                    | Request_all_pages \<Rightarrow> request_all_pages f evs) of
        Returns (f', evs') \<Rightarrow> chain cs f' evs'
      | Raises e \<Rightarrow> Raises e
      | Script_exhausted \<Rightarrow> Script_exhausted)"

subsection \<open>What a waiting caller observes\<close>

text \<open>
  The clock readings of a script, each with the fetcher as the callbacks before the
  reading have left it and with the rest of the script. The first reading of a call of
  \<open>wait\<close> fixes the deadline; every later one is a poll.
\<close>

fun observations :: "'r PageFetcher \<Rightarrow> 'r event list \<Rightarrow> (rat \<times> 'r PageFetcher \<times> 'r event list) list" where
  "observations f [] = []"
| "observations f (Now t # evs) = (t, f, evs) # observations f evs"
| "observations f (ev # evs) = observations (deliver ev f) evs"

definition timeout :: exn where
  "timeout = RuntimeError ''Requested pages were not delivered before timeout.''"

subsection \<open>Interleavings of the caller's statements and the callbacks\<close>

text \<open>
  The steps that change a fetcher after its fields are set: the caller's two statements
  \<open>self.future.start_fetching_next_page()\<close> and \<open>self.requested_pages += 1\<close>, which
  \<open>request_page\<close> and \<open>request_all_pages\<close> execute in this order, and the events of the
  source. No lock orders the callbacks and the caller, so the events may fall between
  any two statements of the caller. The flag of a configuration says that the caller has
  started a fetch and has not counted it yet. The source invokes a callback only for a
  fetch that is in flight: one callback at most for each fetch. Polling in \<open>wait\<close> changes
  no field; a step for it is not needed. The test of \<open>has_more_pages\<close> that precedes
  \<open>start_fetching_next_page()\<close> is no condition of the step, since a callback may run
  between the test and the call.
\<close>

datatype 'r step =
    Caller_fetch_next
  | Caller_count_request
  | Source "'r event"

fun exec :: "'r step \<Rightarrow> 'r PageFetcher \<times> bool \<Rightarrow> ('r PageFetcher \<times> bool) option" where
  "exec Caller_fetch_next (f, uncounted) =
     (if uncounted then None else Some (fetch_next f, True))"
| "exec Caller_count_request (f, uncounted) =
     (if uncounted then Some (count_request f, False) else None)"
| "exec (Source (Now t)) (f, uncounted) = Some (f, uncounted)"
| "exec (Source ev) (f, uncounted) =
     (if 0 < in_flight (future f) then Some (deliver ev f, uncounted) else None)"

fun run :: "'r step list \<Rightarrow> 'r PageFetcher \<times> bool \<Rightarrow> ('r PageFetcher \<times> bool) option" where
  "run [] c = Some c"
| "run (s # ss) c = (case exec s c of None \<Rightarrow> None | Some c' \<Rightarrow> run ss c')"

text \<open>
  A script in which the source invokes a callback only while a fetch is in flight.
\<close>

fun admissible :: "'r PageFetcher \<Rightarrow> 'r event list \<Rightarrow> bool" where
  "admissible f [] = True"
| "admissible f (Now t # evs) = admissible f evs"
| "admissible f (ev # evs) = (0 < in_flight (future f) \<and> admissible (deliver ev f) evs)"

section \<open>datahelp.py\<close>

subsection \<open>Python strings\<close>

text \<open>
  The string methods that the module uses, on byte strings: \<open>s.strip()\<close> removes the
  white space of Python 2 (blank, tab, line feed, carriage return, vertical tab, form
  feed) at both ends, \<open>s.strip('|')\<close> the given character at both ends, \<open>s.split(c)\<close>
  cuts at every \<open>c\<close> and gives one string at least, and \<open>sep.join(xs)\<close> puts \<open>sep\<close> between
  the strings.
\<close>

definition is_space :: "char \<Rightarrow> bool" where
  "is_space c = (c = CHR '' '' \<or> c = CHR 0x09 \<or> c = CHR 0x0A \<or> c = CHR 0x0D \<or> c = CHR 0x0B \<or> c = CHR 0x0C)"

definition py_strip :: "string \<Rightarrow> string" where
  "py_strip s = rev (dropWhile is_space (rev (dropWhile is_space s)))"

definition py_strip_char :: "char \<Rightarrow> string \<Rightarrow> string" where
  "py_strip_char c s = rev (dropWhile (\<lambda>x. x = c) (rev (dropWhile (\<lambda>x. x = c) s)))"

fun py_split :: "char \<Rightarrow> string \<Rightarrow> string list" where
  "py_split c [] = [[]]"
| "py_split c (x # xs) =
     (if x = c then [] # py_split c xs
      else (case py_split c xs of
              [] \<Rightarrow> [[x]]
            | w # ws \<Rightarrow> (x # w) # ws))"

fun py_join :: "string \<Rightarrow> string list \<Rightarrow> string" where
  "py_join sep [] = []"
| "py_join sep [x] = x"
| "py_join sep (x # y # ys) = x @ sep @ py_join sep (y # ys)"

definition is_digit :: "char \<Rightarrow> bool" where
  "is_digit c = (CHR ''0'' \<le> c \<and> c \<le> CHR ''9'')"

text \<open>\<open>int(s)\<close> on a string of decimal digits.\<close>

definition py_int :: "string \<Rightarrow> nat" where
  "py_int ds = fold (\<lambda>c n. 10 * n + (of_char c - 48)) ds 0"

subsection \<open>Python values and dictionaries\<close>

text \<open>
  The values of a row: the text of a cell as it is read, and what the format functions
  of the tests make of it (integers, booleans, identifiers, nothing). \<open>str_of\<close> is
  Python's \<open>str\<close>, which \<open>'{}'.format\<close> applies.
\<close>

datatype pyval =
    PStr string
  | PInt int
  | PBool bool
  | PUuid string
  | PNone

function str_nat :: "nat \<Rightarrow> string" where
  "str_nat n = (if n < 10 then [char_of (48 + n)] else str_nat (n div 10) @ [char_of (48 + n mod 10)])"
  by pat_completeness auto
termination
  by (relation "measure id") auto

fun str_of :: "pyval \<Rightarrow> string" where
  "str_of (PStr s) = s"
| "str_of (PInt i) = (if i < 0 then CHR ''-'' # str_nat (nat (- i)) else str_nat (nat i))"
| "str_of (PBool b) = (if b then ''True'' else ''False'')"
| "str_of (PUuid u) = u"
| "str_of PNone = ''None''"

text \<open>
  A dictionary is the list of its items, each key once. \<open>d[k] = v\<close> replaces the value
  of a key that is present and adds the item otherwise; \<open>dict(pairs)\<close> stores the pairs
  one after the other, so that the last value of a repeated key stays. Python 2 gives
  the items of a dictionary in an order of its own; the model keeps the order in which
  the keys were stored first.
\<close>

type_synonym 'v dict = "(string \<times> 'v) list"

fun dict_setitem :: "string \<Rightarrow> 'v \<Rightarrow> 'v dict \<Rightarrow> 'v dict" where
  "dict_setitem k v [] = [(k, v)]"
| "dict_setitem k v ((k', v') # d) =
     (if k' = k then (k, v) # d else (k', v') # dict_setitem k v d)"

definition py_dict :: "(string \<times> 'v) list \<Rightarrow> 'v dict" where
  "py_dict pairs = fold (\<lambda>(k, v) d. dict_setitem k v d) pairs []"

subsection \<open>Reading a fixture\<close>

text \<open>
  \<^verbatim>\<open>
  def strip(val):
      return val.strip().strip('|')
  \<close>
\<close>

definition strip :: "string \<Rightarrow> string" where
  "strip val = py_strip_char CHR ''|'' (py_strip val)"

text \<open>
  \<^verbatim>\<open>
  def parse_headers_into_list(data):
      rows = map(strip, data.split('\n'))
      rows = filter(None, rows)
      headers = [unicode(h.strip()) for h in rows.pop(0).split('|')]
      return headers
  \<close>
  \<open>rows.pop(0)\<close> raises \<open>IndexError\<close> on the empty list, and \<open>unicode(...)\<close> raises
  \<open>UnicodeDecodeError\<close> on a byte outside ASCII. The text is called \<open>fixture\<close> here.
\<close>

definition parse_headers_into_list :: "string \<Rightarrow> exn + string list" where
  "parse_headers_into_list fixture =
     (let rows = filter (\<lambda>row. row \<noteq> []) (map strip (py_split (CHR 0x0A) fixture))
      in case rows of
           [] \<Rightarrow> Inl IndexError
         | row # _ \<Rightarrow>
             (let headers = map py_strip (py_split CHR ''|'' row)
              in if list_all (list_all (\<lambda>c. (of_char c :: nat) < 128)) headers
                 then Inr headers else Inl UnicodeDecodeError))"

text \<open>
  \<^verbatim>\<open>
  def get_row_multiplier(row):
      row_cells = [l.strip() for l in row.split('|')]
      m = re.findall('\*(\d+)$', row_cells[0])
      if m:
          return int(m[0])
      return None
  \<close>
  The pattern matches an asterisk and a run of decimal digits that ends the string, or
  that ends before the line feed that ends the string; the match is unique when there
  is one, and its group is the run of digits.
\<close>

definition findall_multiplier :: "string \<Rightarrow> string list" where
  "findall_multiplier s =
     (let body = (if s \<noteq> [] \<and> last s = CHR 0x0A then butlast s else s);
          digits = rev (takeWhile is_digit (rev body));
          front = dropWhile is_digit (rev body)
      in if digits \<noteq> [] \<and> front \<noteq> [] \<and> hd front = CHR ''*'' then [digits] else [])"

definition get_row_multiplier :: "string \<Rightarrow> nat option" where
  "get_row_multiplier row =
     (let row_cells = map py_strip (py_split CHR ''|'' row)
      in case findall_multiplier (hd row_cells) of
           [] \<Rightarrow> None
         | m0 # _ \<Rightarrow> Some (py_int m0))"

definition row_has_multiplier :: "string \<Rightarrow> bool" where
  "row_has_multiplier row = (if get_row_multiplier row \<noteq> None then True else False)"

text \<open>
  A format function is a Python function of the text of a cell. The tests pass functions
  that give a new value at each call (\<open>uuid.uuid1()\<close>), so a call takes the state that
  such functions share and gives the next one. \<open>format_funcs\<close> is a dictionary from
  column names to format functions; \<open>None\<close> and the empty dictionary, which the code
  skips, are the empty map.
\<close>

type_synonym 's format_func = "string \<Rightarrow> 's \<Rightarrow> pyval \<times> 's"

text \<open>
  \<^verbatim>\<open>
  for colname, value in row_map.items():
      func = format_funcs.get(colname)
      if func is not None:
          row_map[colname] = func(value)
  \<close>
  The items are read before the loop changes a value, so every function sees the text
  of its cell; a cell without a function keeps its text. The order of the items decides
  only in which order format functions that share state are called within one row.
\<close>

fun format_items :: "(string \<rightharpoonup> 's format_func) \<Rightarrow> string dict \<Rightarrow> 's \<Rightarrow> pyval dict \<times> 's" where
  "format_items format_funcs [] s = ([], s)"
| "format_items format_funcs ((colname, val) # items) s =
     (case format_funcs colname of
        None \<Rightarrow>
          (case format_items format_funcs items s of
             (row_map, s') \<Rightarrow> ((colname, PStr val) # row_map, s'))
      | Some func \<Rightarrow>
          (case func val s of
             (v, s1) \<Rightarrow>
               (case format_items format_funcs items s1 of
                  (row_map, s2) \<Rightarrow> ((colname, v) # row_map, s2))))"

text \<open>\<open>for i in range(n): xs.append(m())\<close>: \<open>n\<close> calls in a row, each on the state that the one before left.\<close>

fun times :: "nat \<Rightarrow> ('s \<Rightarrow> 'a \<times> 's) \<Rightarrow> 's \<Rightarrow> 'a list \<times> 's" where
  "times 0 m s = ([], s)"
| "times (Suc n) m s =
     (case m s of (x, s1) \<Rightarrow> (case times n m s1 of (xs, s2) \<Rightarrow> (x # xs, s2)))"

text \<open>What \<open>parse_row_into_dict\<close> returns: a dictionary, or a list of what it returns.\<close>

datatype parsed =
    Row "pyval dict"
  | Rows "parsed list"

text \<open>
  The row that \<open>parse_row_into_dict\<close> hands to itself is shorter than the row it got:
  the first cell, which holds the multiplier, is dropped.
\<close>

lemma py_split_not_Nil: "py_split c s \<noteq> []"
  by (induction s) (simp_all split: list.splits)

lemma py_join_Cons: "ys \<noteq> [] \<Longrightarrow> py_join sep (x # ys) = x @ sep @ py_join sep ys"
  by (cases ys) simp_all

lemma py_join_py_split: "py_join [c] (py_split c s) = s"
proof (induction s)
  case Nil
  then show ?case by simp
next
  case (Cons x xs)
  show ?case
  proof (cases "x = c")
    case True
    with Cons show ?thesis by (simp add: py_join_Cons py_split_not_Nil)
  next
    case False
    obtain w ws where w: "py_split c xs = w # ws"
      using py_split_not_Nil [of c xs] by (cases "py_split c xs") auto
    with Cons have "py_join [c] (w # ws) = xs" by simp
    with False w show ?thesis by (cases ws) auto
  qed
qed

lemma length_py_strip: "length (py_strip s) \<le> length s"
proof -
  have "length (py_strip s) \<le> length (dropWhile is_space s)"
    unfolding py_strip_def using length_dropWhile_le [of is_space "rev (dropWhile is_space s)"] by simp
  also have "\<dots> \<le> length s" by (rule length_dropWhile_le)
  finally show ?thesis .
qed

lemma length_py_join_strip: "length (py_join sep (map py_strip cs)) \<le> length (py_join sep cs)"
proof (induction sep cs rule: py_join.induct)
  case (3 sep x y ys)
  then show ?case using length_py_strip [of x] by simp
qed (simp_all add: length_py_strip)

lemma length_py_join_tl:
  "cs \<noteq> [] \<Longrightarrow> hd cs \<noteq> [] \<Longrightarrow> length (py_join sep (tl cs)) < length (py_join sep cs)"
  by (cases cs; cases "tl cs") auto

lemma findall_multiplier_Nil: "findall_multiplier [] = []"
  by (simp add: findall_multiplier_def)

lemma py_strip_Nil: "py_strip [] = []"
  by (simp add: py_strip_def)

lemma multiplier_first_cell:
  assumes "get_row_multiplier row = Some n"
  shows "hd (py_split CHR ''|'' row) \<noteq> []"
proof
  assume "hd (py_split CHR ''|'' row) = []"
  then have "hd (map py_strip (py_split CHR ''|'' row)) = []"
    using py_split_not_Nil [of "CHR ''|''" row] by (simp add: hd_map py_strip_Nil)
  with assms show False
    by (simp add: get_row_multiplier_def findall_multiplier_Nil)
qed

lemma remainder_shorter:
  assumes "get_row_multiplier row = Some n"
  shows "length (py_join ''|'' (tl (map py_strip (py_split CHR ''|'' row)))) < length row"
proof -
  let ?cs = "py_split CHR ''|'' row"
  have "length (py_join ''|'' (tl (map py_strip ?cs))) = length (py_join ''|'' (map py_strip (tl ?cs)))"
    by (simp add: map_tl)
  also have "\<dots> \<le> length (py_join ''|'' (tl ?cs))" by (rule length_py_join_strip)
  also have "\<dots> < length (py_join ''|'' ?cs)"
    using length_py_join_tl [OF py_split_not_Nil multiplier_first_cell [OF assms]] .
  also have "\<dots> = length row" by (simp add: py_join_py_split)
  finally show ?thesis .
qed

text \<open>
  \<^verbatim>\<open>
  def parse_row_into_dict(row, headers, format_funcs=None):
      row_cells = [l.strip() for l in row.split('|')]
      if row_has_multiplier(row):
          row_multiplier = get_row_multiplier(row)
          row = '|'.join(row_cells[1:])
          multirows = []
          for i in range(row_multiplier):
              multirows.append(parse_row_into_dict(row, headers, format_funcs=format_funcs))
          return multirows
      row_map = dict(zip(headers, row_cells))
      if format_funcs:
          for colname, value in row_map.items(): ...
      return row_map
  \<close>
\<close>

function parse_row_into_dict ::
  "string \<Rightarrow> string list \<Rightarrow> (string \<rightharpoonup> 's format_func) \<Rightarrow> 's \<Rightarrow> parsed \<times> 's" where
  "parse_row_into_dict row headers format_funcs s =
     (let row_cells = map py_strip (py_split CHR ''|'' row)
      in case get_row_multiplier row of
           Some row_multiplier \<Rightarrow>
             (case times row_multiplier
                     (\<lambda>s'. parse_row_into_dict (py_join ''|'' (tl row_cells)) headers format_funcs s') s of
                (multirows, s') \<Rightarrow> (Rows multirows, s'))
         | None \<Rightarrow>
             (case format_items format_funcs (py_dict (zip headers row_cells)) s of
                (row_map, s') \<Rightarrow> (Row row_map, s')))"
  by pat_completeness auto
termination
  by (relation "measure (\<lambda>(row, headers, format_funcs, s). length row)")
    (auto dest: remainder_shorter)

text \<open>
  \<^verbatim>\<open>
  def parse_data_into_dicts(data, format_funcs=None):
      rows = map(strip, data.split('\n'))
      rows = filter(None, rows)
      headers = parse_headers_into_list(rows.pop(0))
      values = []
      for row in rows:
          if row_has_multiplier(row):
              values.extend(parse_row_into_dict(row, headers, format_funcs=format_funcs))
          else:
              values.append(parse_row_into_dict(row, headers, format_funcs=format_funcs))
      return values
  \<close>
  \<open>parse_rows\<close> is the loop. \<open>values.extend(xs)\<close> appends the elements of the list \<open>xs\<close>;
  for a row with a multiplier \<open>parse_row_into_dict\<close> returns a list (lemma
  \<open>multiplier_gives_list\<close>), so \<open>extend\<close> is never given a dictionary.
\<close>

fun elements :: "parsed \<Rightarrow> parsed list" where
  "elements (Rows xs) = xs"
| "elements (Row d) = []"

fun parse_rows ::
  "string list \<Rightarrow> string list \<Rightarrow> (string \<rightharpoonup> 's format_func) \<Rightarrow> parsed list \<Rightarrow> 's \<Rightarrow> parsed list \<times> 's" where
  "parse_rows [] headers format_funcs values s = (values, s)"
| "parse_rows (row # rows) headers format_funcs values s =
     (case parse_row_into_dict row headers format_funcs s of
        (r, s') \<Rightarrow>
          (if row_has_multiplier row
           then parse_rows rows headers format_funcs (values @ elements r) s'
           else parse_rows rows headers format_funcs (values @ [r]) s'))"

definition parse_data_into_dicts ::
  "string \<Rightarrow> (string \<rightharpoonup> 's format_func) \<Rightarrow> 's \<Rightarrow> exn + parsed list \<times> 's" where
  "parse_data_into_dicts fixture format_funcs s =
     (let rows = filter (\<lambda>row. row \<noteq> []) (map strip (py_split (CHR 0x0A) fixture))
      in case rows of
           [] \<Rightarrow> Inl IndexError
         | header_row # rows' \<Rightarrow>
             (case parse_headers_into_list header_row of
                Inl e \<Rightarrow> Inl e
              | Inr headers \<Rightarrow> Inr (parse_rows rows' headers format_funcs [] s)))"

subsection \<open>Flattening rows for comparison\<close>

text \<open>
  \<^verbatim>\<open>
  def flatten(list_of_dicts):
      flattened = []
      for _dict in list_of_dicts:
          sorted_keys = sorted(_dict)
          items = ['{}__{}'.format(k, _dict[k]) for k in sorted_keys]
          flattened.append('__'.join(items))
      return flattened

  def flatten_into_set(iterable):
      return set(flatten(iterable))
  \<close>
  The keys come from the dictionary itself, so that \<open>_dict[k]\<close> finds each of them.
\<close>

definition flatten :: "pyval dict list \<Rightarrow> string list" where
  "flatten list_of_dicts =
     map (\<lambda>d. py_join ''__'' (map (\<lambda>k. k @ ''__'' @ str_of (the (map_of d k))) (sort (map fst d))))
       list_of_dicts"

definition flatten_into_set :: "pyval dict list \<Rightarrow> string set" where
  "flatten_into_set iterable = set (flatten iterable)"

section \<open>Example fetchers\<close>

text \<open>A source whose first fetch is under way and that has no callbacks yet.\<close>

definition first_fetch_running :: future where
  "first_fetch_running = \<lparr>has_more_pages = False, callbacks_registered = False, in_flight = 1\<rparr>"

text \<open>A fetcher with no request outstanding.\<close>

definition all_delivered :: "nat PageFetcher" where
  "all_delivered = \<lparr>pages = [\<lparr>data = [10, 11]\<rparr>], error = None,
      future = \<lparr>has_more_pages = False, callbacks_registered = True, in_flight = 0\<rparr>,
      requested_pages = 1, retrieved_pages = 1\<rparr>"


text \<open>A fetcher that holds two pages, of two rows and of one row.\<close>

definition two_pages :: "nat PageFetcher" where
  "two_pages = \<lparr>pages = [\<lparr>data = [10, 11]\<rparr>, \<lparr>data = [12]\<rparr>], error = None,
      future = \<lparr>has_more_pages = False, callbacks_registered = True, in_flight = 0\<rparr>,
      requested_pages = 2, retrieved_pages = 2\<rparr>"

section \<open>Properties of the accessors\<close>

lemma fold_extend: "fold (\<lambda>page acc. acc @ data page) ps acc0 = acc0 @ concat (map data ps)"
  by (induction ps arbitrary: acc0) simp_all


lemma length_concat_sum: "length (concat xss) = sum_list (map length xss)"
  by (induction xss) simp_all

text \<open>
  C6. \<open>all_retrieved_data()\<close> is the concatenation of the row sequences of the pages, in
  the order of the pages and with the order of the rows inside each page kept; its
  length is the sum of the counts that \<open>num_results_all_pages()\<close> returns.
\<close>

theorem all_retrieved_data_concat:
  "all_retrieved_data f = concat (map data (pages f)) \<and>
   length (all_retrieved_data f) = sum_list (num_results_all_pages f)"
  by (simp add: all_retrieved_data_def num_results_all_pages_def fold_extend
      length_concat_sum comp_def)

subsection \<open>Page numbers\<close>

lemma py_index_front: "0 \<le> i \<Longrightarrow> i < int (length xs) \<Longrightarrow> py_index xs i = Inr (xs ! nat i)"
  by (simp add: py_index_def)

lemma py_index_back:
  "i < 0 \<Longrightarrow> - int (length xs) \<le> i \<Longrightarrow> py_index xs i = Inr (xs ! nat (int (length xs) + i))"
  by (simp add: py_index_def)

lemma py_index_out: "i < - int (length xs) \<or> int (length xs) \<le> i \<Longrightarrow> py_index xs i = Inl IndexError"
  by (auto simp add: py_index_def)

text \<open>
  C7 (as the code has it). \<open>num_results(page_num)\<close> and \<open>retrieved_page_data(page_num)\<close>
  index the list of pages with \<open>page_num - 1\<close>, by Python's rules. With \<open>n\<close> pages
  retrieved: for \<open>1 \<le> page_num \<le> n\<close> they give the row count and the rows of that page;
  for \<open>page_num > n\<close> and for \<open>page_num \<le> -n\<close> they raise \<open>IndexError\<close>; and for
  \<open>-n < page_num \<le> 0\<close> they raise nothing: the index is negative and counts from the end,
  so that they give page \<open>n + page_num\<close>, the last page for \<open>page_num = 0\<close>.
\<close>

theorem page_accessors_python_indexing:
  "(1 \<le> page_num \<and> page_num \<le> int (length (pages f)) \<longrightarrow>
      num_results f page_num = Inr (length (data (pages f ! nat (page_num - 1)))) \<and>
      retrieved_page_data f page_num = Inr (data (pages f ! nat (page_num - 1)))) \<and>
   (int (length (pages f)) < page_num \<or> page_num \<le> - int (length (pages f)) \<longrightarrow>
      num_results f page_num = Inl IndexError \<and>
      retrieved_page_data f page_num = Inl IndexError) \<and>
   (- int (length (pages f)) < page_num \<and> page_num \<le> 0 \<longrightarrow>
      num_results f page_num = Inr (length (data (pages f ! nat (int (length (pages f)) + page_num - 1)))) \<and>
      retrieved_page_data f page_num = Inr (data (pages f ! nat (int (length (pages f)) + page_num - 1))))"
proof (intro conjI impI)
  assume "1 \<le> page_num \<and> page_num \<le> int (length (pages f))"
  then have "py_index (pages f) (page_num - 1) = Inr (pages f ! nat (page_num - 1))"
    using py_index_front [of "page_num - 1" "pages f"] by simp
  then show "num_results f page_num = Inr (length (data (pages f ! nat (page_num - 1))))"
    and "retrieved_page_data f page_num = Inr (data (pages f ! nat (page_num - 1)))"
    by (simp_all add: num_results_def retrieved_page_data_def)
next
  assume "int (length (pages f)) < page_num \<or> page_num \<le> - int (length (pages f))"
  then have "py_index (pages f) (page_num - 1) = Inl IndexError"
    using py_index_out [of "page_num - 1" "pages f"] by auto
  then show "num_results f page_num = Inl IndexError"
    and "retrieved_page_data f page_num = Inl IndexError"
    by (simp_all add: num_results_def retrieved_page_data_def)
next
  assume "- int (length (pages f)) < page_num \<and> page_num \<le> 0"
  then have "py_index (pages f) (page_num - 1) = Inr (pages f ! nat (int (length (pages f)) + page_num - 1))"
    using py_index_back [of "page_num - 1" "pages f"] by (simp add: algebra_simps)
  then show "num_results f page_num = Inr (length (data (pages f ! nat (int (length (pages f)) + page_num - 1))))"
    and "retrieved_page_data f page_num = Inr (data (pages f ! nat (int (length (pages f)) + page_num - 1)))"
    by (simp_all add: num_results_def retrieved_page_data_def)
qed

theorem page_accessors_python_indexing_witness:
  "num_results two_pages 1 = Inr 2 \<and> retrieved_page_data two_pages 2 = Inr [12] \<and>
   num_results two_pages 3 = Inl IndexError \<and> retrieved_page_data two_pages (-2) = Inl IndexError \<and>
   num_results two_pages 0 = Inr 1 \<and> retrieved_page_data two_pages (-1) = Inr [10, 11]"
  using page_accessors_python_indexing [of 1 two_pages]
    page_accessors_python_indexing [of 2 two_pages]
    page_accessors_python_indexing [of 3 two_pages]
    page_accessors_python_indexing [of "-2" two_pages]
    page_accessors_python_indexing [of 0 two_pages]
    page_accessors_python_indexing [of "-1" two_pages]
  by (simp add: two_pages_def)

text \<open>
  The page number 0 is outside \<open>1 .. n\<close>, and both accessors answer it with the last
  page instead of a failure.
\<close>

theorem page_number_zero_returns_last_page:
  "\<not> (1 \<le> (0::int) \<and> (0::int) \<le> int (length (pages two_pages))) \<and>
   num_results two_pages 0 = Inr 1 \<and> retrieved_page_data two_pages 0 = Inr [12]"
  by (simp add: two_pages_def num_results_def retrieved_page_data_def py_index_def)

section \<open>Properties of wait\<close>

lemma poll_observations:
  "poll f expiry evs =
     (case find (\<lambda>(t, g, r). \<not> t < expiry \<or> requested_pages g = retrieved_pages g) (observations f evs) of
        None \<Rightarrow> Script_exhausted
      | Some (t, g, r) \<Rightarrow> if t < expiry then Returns (g, r) else Raises timeout)"
  by (induction f expiry evs rule: poll.induct) (simp_all add: timeout_def)

lemma wait_observations:
  "wait f seconds evs =
     (case observations f evs of
        [] \<Rightarrow> Script_exhausted
      | (t0, g0, r0) # obs \<Rightarrow>
          (case find (\<lambda>(t, g, r). \<not> t < t0 + seconds \<or> requested_pages g = retrieved_pages g) obs of
             None \<Rightarrow> Script_exhausted
           | Some (t, g, r) \<Rightarrow> if t < t0 + seconds then Returns (g, r) else Raises timeout))"
  by (induction f seconds evs rule: wait.induct) (simp_all add: poll_observations)

lemma observations_prefix:
  "(t, g, r) \<in> set (observations f evs) \<Longrightarrow> \<exists>pre. evs = pre @ Now t # r \<and> g = fold deliver pre f"
proof (induction evs arbitrary: f)
  case Nil
  then show ?case by simp
next
  case (Cons ev evs)
  show ?case
  proof (cases "ev = Now t \<and> g = f \<and> r = evs")
    case True
    then have "ev # evs = [] @ Now t # r \<and> g = fold deliver [] f" by simp
    then show ?thesis by blast
  next
    case False
    with Cons.prems have "(t, g, r) \<in> set (observations (deliver ev f) evs)"
      by (cases ev) auto
    with Cons.IH obtain pre where "evs = pre @ Now t # r" "g = fold deliver pre (deliver ev f)"
      by blast
    then have "ev # evs = (ev # pre) @ Now t # r \<and> g = fold deliver (ev # pre) f" by simp
    then show ?thesis by blast
  qed
qed

lemma find_SomeD: "find P xs = Some x \<Longrightarrow> P x \<and> x \<in> set xs"
  by (induction xs) (auto split: if_splits)

lemma wait_Returns:
  assumes "wait f seconds evs = Returns (g, r)"
  shows "requested_pages g = retrieved_pages g \<and> (\<exists>pre. evs = pre @ r \<and> g = fold deliver pre f)"
proof -
  from assms obtain t0 g0 r0 obs where o: "observations f evs = (t0, g0, r0) # obs"
    by (cases "observations f evs") (auto simp: wait_observations)
  let ?P = "\<lambda>(t, g, r). \<not> t < t0 + seconds \<or> requested_pages g = retrieved_pages g"
  from assms o obtain t where f: "find ?P obs = Some (t, g, r)" and t: "t < t0 + seconds"
    by (auto simp: wait_observations split: option.splits if_splits)
  from f have "?P (t, g, r)" and m: "(t, g, r) \<in> set obs"
    using find_SomeD [of ?P obs "(t, g, r)"] by blast+
  with t have eq: "requested_pages g = retrieved_pages g" by simp
  from m o have "(t, g, r) \<in> set (observations f evs)" by simp
  then obtain pre where "evs = pre @ Now t # r" "g = fold deliver pre f"
    using observations_prefix by blast
  then have "evs = (pre @ [Now t]) @ r \<and> g = fold deliver (pre @ [Now t]) f" by simp
  with eq show ?thesis by blast
qed






section \<open>Properties of construction and of the requests\<close>













text \<open>
  C5. When the source has no more pages, \<open>request_page()\<close> and \<open>request_all_pages()\<close>
  return the fetcher as it is, pages and both counters included, and read nothing of
  the script; so does every chain of such calls, however long.
\<close>

theorem exhausted_requests_are_noops:
  assumes "\<not> has_more_pages (future f)"
  shows "request_page f evs = Returns (f, evs) \<and>
         request_all_pages f evs = Returns (f, evs) \<and>
         chain calls f evs = Returns (f, evs)"
proof (intro conjI)
  from assms show p: "request_page f evs = Returns (f, evs)" by (simp add: request_page_def)
  from assms show a: "request_all_pages f evs = Returns (f, evs)" by simp
  from p a show "chain calls f evs = Returns (f, evs)"
    by (induction calls) (simp_all split: call.splits)
qed

theorem exhausted_requests_are_noops_witness:
  "request_page all_delivered [Now 100] = Returns (all_delivered, [Now 100]) \<and>
   request_all_pages all_delivered [Now 100] = Returns (all_delivered, [Now 100]) \<and>
   chain [Request_page, Request_all_pages, Request_all_pages, Request_page] all_delivered [Now 100] =
     Returns (all_delivered, [Now 100])"
proof -
  have "\<not> has_more_pages (future all_delivered)" by (simp add: all_delivered_def)
  then show ?thesis
    using exhausted_requests_are_noops [of all_delivered "[Now 100]"
        "[Request_page, Request_all_pages, Request_all_pages, Request_page]"]
    by simp
qed

section \<open>The two counters\<close>

text \<open>
  Every step keeps the pages retrieved and the fetches in flight, taken together, within
  the requests counted, plus one while a started fetch waits to be counted.
\<close>

lemma exec_accounts:
  assumes "exec s (f, uncounted) = Some (f', uncounted')"
    and "retrieved_pages f + int (in_flight (future f)) \<le> requested_pages f + (if uncounted then 1 else 0)"
  shows "retrieved_pages f' + int (in_flight (future f')) \<le> requested_pages f' + (if uncounted' then 1 else 0)"
proof (cases s)
  case Caller_fetch_next
  with assms show ?thesis
    by (auto simp: fetch_next_def start_fetching_next_page_def split: if_splits)
next
  case Caller_count_request
  with assms show ?thesis
    by (auto simp: count_request_def split: if_splits)
next
  case (Source ev)
  with assms show ?thesis
    by (cases ev) (auto simp: handle_page_def handle_error_def split: if_splits)
qed

lemma run_accounts:
  assumes "run steps (f, uncounted) = Some (f', uncounted')"
    and "retrieved_pages f + int (in_flight (future f)) \<le> requested_pages f + (if uncounted then 1 else 0)"
  shows "retrieved_pages f' + int (in_flight (future f')) \<le> requested_pages f' + (if uncounted' then 1 else 0)"
  using assms
proof (induction steps arbitrary: f uncounted)
  case Nil
  then show ?case by simp
next
  case (Cons s steps)
  from Cons.prems(1) obtain f1 u1 where e: "exec s (f, uncounted) = Some (f1, u1)"
    and r: "run steps (f1, u1) = Some (f', uncounted')"
    by (cases "exec s (f, uncounted)") auto
  from exec_accounts [OF e Cons.prems(2)] Cons.IH [OF r] show ?case by blast
qed

text \<open>
  C1 (as the code has it). In every configuration that the caller's statements and the
  callbacks of the source reach from a new fetcher, in any interleaving and with one
  callback at most for each fetch, \<open>retrieved_pages\<close> exceeds \<open>requested_pages\<close> by
  1 at most, and only while a fetch that the caller has started is not counted yet.
  Outside that window, which is closed at every poll of \<open>wait\<close> and whenever
  \<open>request_page\<close> or \<open>request_all_pages\<close> is entered or left, \<open>retrieved_pages\<close> is at
  most \<open>requested_pages\<close>, and equal counters mean that no fetch is in flight.
\<close>

theorem counters_invariant:
  assumes "in_flight fut \<le> 1"
    and "run steps (PageFetcher_fields fut, False) = Some (f, uncounted)"
  shows "retrieved_pages f \<le> requested_pages f + (if uncounted then 1 else 0) \<and>
         (\<not> uncounted \<longrightarrow>
            retrieved_pages f \<le> requested_pages f \<and>
            (retrieved_pages f = requested_pages f \<longrightarrow> in_flight (future f) = 0))"
proof -
  let ?f0 = "PageFetcher_fields fut :: 'a PageFetcher"
  from assms(1) have "retrieved_pages ?f0 + int (in_flight (future ?f0)) \<le> requested_pages ?f0 + (if False then 1 else 0)"
    by (simp add: PageFetcher_fields_def add_callbacks_def)
  from run_accounts [OF assms(2) this]
  have "retrieved_pages f + int (in_flight (future f)) \<le> requested_pages f + (if uncounted then 1 else 0)" .
  then show ?thesis by auto
qed

theorem counters_invariant_witness:
  "in_flight first_fetch_running \<le> 1 \<and>
   run [Source (Page_arrives [10, 11 :: nat] True), Caller_fetch_next, Caller_count_request,
        Source (Now 100), Source (Page_arrives [12] False)]
     (PageFetcher_fields first_fetch_running, False) = Some (two_pages, False) \<and>
   retrieved_pages two_pages \<le> requested_pages two_pages \<and>
   retrieved_pages two_pages = requested_pages two_pages \<and>
   in_flight (future two_pages) = 0"
proof -
  let ?steps = "[Source (Page_arrives [10, 11 :: nat] True), Caller_fetch_next, Caller_count_request,
        Source (Now 100), Source (Page_arrives [12] False)]"
  have a: "in_flight first_fetch_running \<le> 1" by (simp add: first_fetch_running_def)
  have b: "run ?steps (PageFetcher_fields first_fetch_running, False) = Some (two_pages, False)"
    by (simp add: PageFetcher_fields_def first_fetch_running_def add_callbacks_def fetch_next_def
        start_fetching_next_page_def count_request_def handle_page_def add_row_def Page_init_def
        two_pages_def)
  have c: "retrieved_pages two_pages = requested_pages two_pages" by (simp add: two_pages_def)
  from counters_invariant [OF a b] a b c show ?thesis by simp
qed

text \<open>
  The first page has arrived and the caller, in \<open>request_page\<close>, has called
  \<open>start_fetching_next_page()\<close> and has not yet counted the request: the counters are
  equal and a fetch is in flight. When the page of that fetch arrives before the request
  is counted, \<open>retrieved_pages\<close> is 2 and \<open>requested_pages\<close> is 1.
\<close>

theorem counters_between_fetch_and_count:
  "run [Source (Page_arrives [10, 11 :: nat] True), Caller_fetch_next]
     (PageFetcher_fields first_fetch_running, False) =
     Some (\<lparr>pages = [\<lparr>data = [10, 11]\<rparr>], error = None,
             future = \<lparr>has_more_pages = True, callbacks_registered = True, in_flight = 1\<rparr>,
             requested_pages = 1, retrieved_pages = 1\<rparr>, True) \<and>
   run [Source (Page_arrives [10, 11 :: nat] True), Caller_fetch_next, Source (Page_arrives [12] False)]
     (PageFetcher_fields first_fetch_running, False) =
     Some (\<lparr>pages = [\<lparr>data = [10, 11]\<rparr>, \<lparr>data = [12]\<rparr>], error = None,
             future = \<lparr>has_more_pages = False, callbacks_registered = True, in_flight = 0\<rparr>,
             requested_pages = 1, retrieved_pages = 2\<rparr>, True)"
  by (simp add: PageFetcher_fields_def first_fetch_running_def add_callbacks_def fetch_next_def
      start_fetching_next_page_def handle_page_def add_row_def Page_init_def)

subsection \<open>Calls as interleavings\<close>

text \<open>
  A call of \<open>request_page\<close> that starts a fetch and returns is the interleaving of the
  caller's two statements and of the events that the call has consumed.
\<close>

lemma run_sources:
  "admissible f (pre @ rest) \<Longrightarrow> run (map Source pre) (f, uncounted) = Some (fold deliver pre f, uncounted)"
proof (induction pre arbitrary: f)
  case Nil
  then show ?case by simp
next
  case (Cons ev pre)
  then show ?case by (cases ev) simp_all
qed

lemma request_page_is_a_run:
  assumes "request_page f evs = Returns (g, r)"
    and "has_more_pages (future f)"
    and "admissible (count_request (fetch_next f)) evs"
  shows "\<exists>pre. evs = pre @ r \<and>
           run (Caller_fetch_next # Caller_count_request # map Source pre) (f, False) = Some (g, False)"
proof -
  let ?f = "count_request (fetch_next f)"
  from assms(1,2) have "wait ?f 5 evs = Returns (g, r)"
    by (cases "wait ?f 5 evs") (auto simp: request_page_def)
  then obtain pre where pre: "evs = pre @ r" "g = fold deliver pre ?f"
    using wait_Returns by blast
  with assms(3) have "run (map Source pre) (?f, False) = Some (g, False)"
    using run_sources [of ?f pre r False] by simp
  then have "run (Caller_fetch_next # Caller_count_request # map Source pre) (f, False) = Some (g, False)"
    by simp
  with pre(1) show ?thesis by blast
qed

section \<open>Properties of the fixture reader and of flattening\<close>

lemma multiplier_gives_list:
  "row_has_multiplier row \<Longrightarrow> \<exists>xs. fst (parse_row_into_dict row headers format_funcs s) = Rows xs"
  by (auto simp: row_has_multiplier_def split: prod.splits if_splits)

text \<open>
  C8. A data row whose first cell carries the multiplier \<open>*N\<close> is meant to give \<open>N\<close>
  dictionaries, made of the remaining cells and the header names. The code joins the
  remaining cells and parses the result as a row of its own, multiplier included: in
  the fixture below the row \<open>*2|6*7|product|\<close> has the multiplier 2 and the remaining
  cells \<open>6*7\<close> and \<open>product\<close>, and \<open>parse_data_into_dicts\<close> returns two lists of seven
  dictionaries each, with \<open>product\<close> in the column \<open>expr\<close>, where two dictionaries with
  \<open>expr = 6*7\<close> and \<open>note = product\<close> are due.
\<close>

theorem nested_multiplier_row:
  "get_row_multiplier ''*2|6*7|product'' = Some 2 \<and>
   parse_data_into_dicts ''|expr|note|\<newline>*2|6*7|product|'' Map.empty () =
     Inr ([Rows (replicate 7 (Row [(''expr'', PStr ''product'')])),
           Rows (replicate 7 (Row [(''expr'', PStr ''product'')]))], ())"
  by code_simp

text \<open>
  C9. Flattening is not injective: a row with the one column \<open>a = 1__b__2\<close> and a row
  with the two columns \<open>a = 1\<close> and \<open>b = 2\<close> are different dictionaries with the same
  flattened string \<open>a__1__b__2\<close>, since \<open>__\<close> stands between a key and its value and
  between two columns alike; the flattened sets of the two rows are equal as well.
\<close>

theorem flatten_not_injective:
  "\<exists>d1 d2. distinct (map fst d1) \<and> distinct (map fst d2) \<and> map_of d1 \<noteq> map_of d2 \<and>
     flatten [d1] = flatten [d2] \<and> flatten_into_set [d1] = flatten_into_set [d2]"
proof -
  let ?d1 = "[(''a'', PStr ''1__b__2'')]"
  let ?d2 = "[(''a'', PStr ''1''), (''b'', PStr ''2'')]"
  have "map_of ?d1 ''b'' \<noteq> map_of ?d2 ''b''" by simp
  then have ne: "map_of ?d1 \<noteq> map_of ?d2" by metis
  have eq: "flatten [?d1] = flatten [?d2]" by (simp add: flatten_def)
  then have "flatten_into_set [?d1] = flatten_into_set [?d2]" by (simp add: flatten_into_set_def)
  with ne eq have "distinct (map fst ?d1) \<and> distinct (map fst ?d2) \<and> map_of ?d1 \<noteq> map_of ?d2 \<and>
     flatten [?d1] = flatten [?d2] \<and> flatten_into_set [?d1] = flatten_into_set [?d2]"
    by simp
  then show ?thesis by blast
qed

subsection \<open>Rows with a multiplier\<close>

text \<open>
  Where the remaining cells do not look like a multiplier once more, a row with the
  multiplier \<open>n\<close> gives \<open>n\<close> dictionaries of the remaining cells, and the format functions
  are called anew for each of them.
\<close>

lemma py_split_no_sep: "x \<in> set (py_split c s) \<Longrightarrow> c \<notin> set x"
proof (induction s arbitrary: x)
  case Nil
  then show ?case by simp
next
  case (Cons a s)
  obtain w ws where w: "py_split c s = w # ws"
    using py_split_not_Nil [of c s] by (cases "py_split c s") auto
  show ?case
  proof (cases "a = c")
    case True
    with Cons show ?thesis by auto
  next
    case False
    with Cons.prems w have "x = a # w \<or> x \<in> set ws" by simp
    with Cons.IH w False show ?thesis by auto
  qed
qed

lemma py_split_plain: "c \<notin> set x \<Longrightarrow> py_split c x = [x]"
  by (induction x) auto

lemma py_split_append: "c \<notin> set x \<Longrightarrow> py_split c (x @ c # s) = x # py_split c s"
  by (induction x) auto

lemma py_split_py_join:
  "cs \<noteq> [] \<Longrightarrow> \<forall>x\<in>set cs. c \<notin> set x \<Longrightarrow> py_split c (py_join [c] cs) = cs"
proof (induction "[c]" cs rule: py_join.induct)
  case 1
  then show ?case by simp
next
  case (2 x)
  then show ?case by (simp add: py_split_plain)
next
  case (3 x y ys)
  then show ?case by (simp add: py_split_append)
qed

lemma set_py_strip: "set (py_strip s) \<subseteq> set s"
proof -
  have "set (py_strip s) \<subseteq> set (dropWhile is_space s)"
    unfolding py_strip_def using set_dropWhileD [of _ is_space "rev (dropWhile is_space s)"] by auto
  also have "\<dots> \<subseteq> set s" using set_dropWhileD [of _ is_space s] by auto
  finally show ?thesis .
qed

lemma dropWhile_prefix_rev:
  assumes "xs = [] \<or> \<not> P (hd xs)"
  shows "dropWhile P (rev (dropWhile P (rev xs))) = rev (dropWhile P (rev xs))"
proof -
  define u where "u = rev (dropWhile P (rev xs))"
  have xs: "xs = u @ rev (takeWhile P (rev xs))"
    unfolding u_def using takeWhile_dropWhile_id [of P "rev xs"] by (metis rev_append rev_rev_ident)
  have "dropWhile P u = u"
  proof (cases u)
    case Nil
    then show ?thesis by simp
  next
    case (Cons a as)
    with xs have "xs = a # as @ rev (takeWhile P (rev xs))" by simp
    then have "xs \<noteq> []" and "hd xs = a" by (metis list.distinct(1), metis list.sel(1))
    with assms have "\<not> P a" by auto
    with Cons show ?thesis by simp
  qed
  then show ?thesis by (simp only: u_def)
qed

lemma py_strip_idem: "py_strip (py_strip s) = py_strip s"
proof -
  let ?t = "dropWhile is_space s"
  have "?t = [] \<or> \<not> is_space (hd ?t)" using hd_dropWhile [of is_space s] by auto
  then have "dropWhile is_space (rev (dropWhile is_space (rev ?t))) = rev (dropWhile is_space (rev ?t))"
    by (rule dropWhile_prefix_rev)
  then show ?thesis by (simp add: py_strip_def)
qed

lemma multiplier_row_copies:
  assumes m: "get_row_multiplier row = Some n"
    and cells: "tl (map py_strip (py_split CHR ''|'' row)) = cell # cells"
    and plain: "findall_multiplier cell = []"
  shows "parse_row_into_dict row headers format_funcs s =
     (case times n (\<lambda>s'. case format_items format_funcs (py_dict (zip headers (cell # cells))) s' of
                            (row_map, s'') \<Rightarrow> (Row row_map, s'')) s of
        (multirows, s') \<Rightarrow> (Rows multirows, s'))"
proof -
  let ?rest = "py_join ''|'' (cell # cells)"
  have mem: "\<forall>x\<in>set (cell # cells). CHR ''|'' \<notin> set x \<and> py_strip x = x"
  proof
    fix x assume "x \<in> set (cell # cells)"
    with cells have "x \<in> set (map py_strip (py_split CHR ''|'' row))"
      by (metis list.sel(2) list.set_sel(2) tl_Nil)
    then obtain y where y: "y \<in> set (py_split CHR ''|'' row)" and x: "x = py_strip y" by auto
    from y have "CHR ''|'' \<notin> set y" by (rule py_split_no_sep)
    with x set_py_strip [of y] have "CHR ''|'' \<notin> set x" by auto
    moreover from x have "py_strip x = x" by (simp add: py_strip_idem)
    ultimately show "CHR ''|'' \<notin> set x \<and> py_strip x = x" by simp
  qed
  then have split: "py_split CHR ''|'' ?rest = cell # cells"
    using py_split_py_join [of "cell # cells" "CHR ''|''"] by simp
  from mem have "map py_strip (cell # cells) = cell # cells" by (simp add: map_idI)
  with split have stripped: "map py_strip (py_split CHR ''|'' ?rest) = cell # cells" by simp
  with plain have none: "get_row_multiplier ?rest = None"
    by (simp add: get_row_multiplier_def)
  have "parse_row_into_dict ?rest headers format_funcs s' =
      (case format_items format_funcs (py_dict (zip headers (cell # cells))) s' of
         (row_map, s'') \<Rightarrow> (Row row_map, s''))" for s'
    by (subst parse_row_into_dict.simps) (simp only: none stripped Let_def option.case)
  then have inner: "parse_row_into_dict ?rest headers format_funcs =
      (\<lambda>s'. case format_items format_funcs (py_dict (zip headers (cell # cells))) s' of
         (row_map, s'') \<Rightarrow> (Row row_map, s''))"
    by (rule ext)
  show ?thesis
    by (subst parse_row_into_dict.simps) (simp only: m cells Let_def option.case inner)
qed

lemma multiplier_row_values:
  assumes "get_row_multiplier row = Some n"
    and "tl (map py_strip (py_split CHR ''|'' row)) = cell # cells"
    and "findall_multiplier cell = []"
  shows "parse_rows (row # rows) headers format_funcs values s =
     (case times n (\<lambda>s'. case format_items format_funcs (py_dict (zip headers (cell # cells))) s' of
                            (row_map, s'') \<Rightarrow> (Row row_map, s'')) s of
        (multirows, s') \<Rightarrow> parse_rows rows headers format_funcs (values @ multirows) s')"
  using assms(1)
  by (simp add: multiplier_row_copies [OF assms] row_has_multiplier_def
      del: parse_row_into_dict.simps split: prod.splits)

lemma times_length: "times n m s = (xs, s') \<Longrightarrow> length xs = n"
  by (induction n arbitrary: s xs s') (auto split: prod.splits)

end
